theory Spec2Isabelle
  imports Complex_Main
begin

section \<open>StatsCollector: get-pr-stats.js\<close>

text \<open>
  JavaScript numbers are modelled exactly: counts are natural numbers, the effort score
  is a real number, and the value NaN that \<^verbatim>\<open>Math.sqrt\<close> returns on a negative
  argument is \<open>None\<close>. Rounding of IEEE doubles is not part of the model.
\<close>

subsection \<open>Data\<close>

text \<open>One entry of \<^verbatim>\<open>response.data\<close>; a numeric field may be missing.\<close>

record pr_file =
  file_filename :: string
  file_status :: string
  file_additions :: "nat option"
  file_deletions :: "nat option"
  file_changes :: "nat option"

record stats =
  stats_filesChanged :: nat
  stats_additions :: nat
  stats_deletions :: nat
  stats_totalChanges :: nat
  stats_effort :: "real option"
  stats_changedLines :: "string \<rightharpoonup> nat list"
  stats_files :: "string list"

text \<open>
  \<^verbatim>\<open>github.rest.pulls.listFiles\<close>, the page number to \<^verbatim>\<open>response.data\<close>;
  \<open>Inl\<close> is a rejected call.
\<close>

type_synonym listFiles_api = "nat \<Rightarrow> string + pr_file list"

subsection \<open>Pagination (lines 15 to 36)\<close>

definition perPage :: nat where
  "perPage = 100"

partial_function (option) fetchAllFiles ::
  "listFiles_api \<Rightarrow> nat \<Rightarrow> pr_file list \<Rightarrow> (string + pr_file list) option" where
  "fetchAllFiles listFiles page allFiles =
     (case listFiles page of
        Inl err \<Rightarrow> Some (Inl err)
      | Inr data \<Rightarrow>
          if length data = 0 then Some (Inr allFiles)
          else if length data < perPage then Some (Inr (allFiles @ data))
          else fetchAllFiles listFiles (page + 1) (allFiles @ data))"

subsection \<open>Aggregation and effort (lines 41 to 77)\<close>

text \<open>\<^verbatim>\<open>v || 0\<close> on a count that may be missing.\<close>

definition or0 :: "nat option \<Rightarrow> nat" where
  "or0 v = (case v of None \<Rightarrow> 0 | Some n \<Rightarrow> n)"

definition Math_sqrt :: "real \<Rightarrow> real option" where
  "Math_sqrt x = (if x < 0 then None else Some (sqrt x))"

definition lineScoreUnit :: real where
  "lineScoreUnit = 200"

text \<open>Line 67, as a function of the two variables it reads.\<close>

definition effort_expr :: "real \<Rightarrow> real \<Rightarrow> real option" where
  "effort_expr lineScore lineScoreUnitCount =
     (case Math_sqrt lineScoreUnit of
        None \<Rightarrow> None
      | Some u \<Rightarrow>
          (case Math_sqrt (lineScore - lineScoreUnitCount * lineScoreUnit) of
             None \<Rightarrow> None
           | Some r \<Rightarrow> Some (lineScoreUnitCount * u + r)))"

text \<open>Lines 64 to 67.\<close>

definition compute_effort :: "nat \<Rightarrow> nat \<Rightarrow> real option" where
  "compute_effort adds dels =
     (let lineScore = real dels * 0.2 + real adds * 1.0;
          lineScoreUnitCount = real_of_int \<lfloor>lineScore / lineScoreUnit\<rfloor>
      in effort_expr lineScore lineScoreUnitCount)"

definition computeStats :: "pr_file list \<Rightarrow> stats" where
  "computeStats allFiles =
     (let adds = fold (\<lambda>file acc. acc + or0 (file_additions file)) allFiles 0;
          dels = fold (\<lambda>file acc. acc + or0 (file_deletions file)) allFiles 0;
          totalChanges = fold (\<lambda>file acc. acc + or0 (file_changes file)) allFiles 0;
          changedLines =
            fold (\<lambda>file m. if file_status file \<noteq> ''removed''
                             then m(file_filename file \<mapsto> []) else m)
              allFiles Map.empty
      in \<lparr>stats_filesChanged = length allFiles,
          stats_additions = adds,
          stats_deletions = dels,
          stats_totalChanges = totalChanges,
          stats_effort = compute_effort adds dels,
          stats_changedLines = changedLines,
          stats_files = map file_filename allFiles\<rparr>)"

text \<open>
  The whole script: \<open>None\<close> when the loop never ends, \<open>Inl\<close> when a call is rejected
  (the script's \<^verbatim>\<open>catch\<close> then reports failure), \<open>Inr\<close> the statistics written out.
\<close>

definition getPrStats :: "listFiles_api \<Rightarrow> (string + stats) option" where
  "getPrStats listFiles =
     (case fetchAllFiles listFiles 1 [] of
        None \<Rightarrow> None
      | Some (Inl err) \<Rightarrow> Some (Inl err)
      | Some (Inr allFiles) \<Rightarrow> Some (Inr (computeStats allFiles)))"

text \<open>
  The environment of the pagination claims: a service that holds the changed files \<open>fs\<close>
  and answers page \<open>p\<close> (counted from 1) with the \<open>p\<close>-th block of \<open>perPage\<close> files.
\<close>

definition pagedFiles :: "pr_file list \<Rightarrow> listFiles_api" where
  "pagedFiles fs page = Inr (take perPage (drop ((page - 1) * perPage) fs))"

text \<open>The effort formula in the words of the specification.\<close>

definition spec_lineScore :: "nat \<Rightarrow> nat \<Rightarrow> real" where
  "spec_lineScore adds dels = real dels * 0.2 + real adds * 1.0"

definition spec_unitCount :: "nat \<Rightarrow> nat \<Rightarrow> int" where
  "spec_unitCount adds dels = \<lfloor>spec_lineScore adds dels / 200\<rfloor>"

definition spec_effort :: "nat \<Rightarrow> nat \<Rightarrow> real" where
  "spec_effort adds dels =
     real_of_int (spec_unitCount adds dels) * sqrt 200
       + sqrt (spec_lineScore adds dels - real_of_int (spec_unitCount adds dels) * 200)"


text \<open>The data of a page, empty when the call is rejected.\<close>

definition pageData :: "listFiles_api \<Rightarrow> nat \<Rightarrow> pr_file list" where
  "pageData listFiles page = (case listFiles page of Inl _ \<Rightarrow> [] | Inr d \<Rightarrow> d)"

text \<open>A service that answers one full page, then a short one.\<close>

definition exampleFile :: pr_file where
  "exampleFile = \<lparr>file_filename = ''a.js'', file_status = ''modified'',
     file_additions = Some 3, file_deletions = None, file_changes = Some 3\<rparr>"

definition examplePages :: listFiles_api where
  "examplePages page =
     (if page = 1 then Inr (replicate 100 exampleFile)
      else if page = 2 then Inr (replicate 37 exampleFile)
      else Inl ''not requested'')"

section \<open>ProjectSyncer: log-to-project.js\<close>

subsection \<open>Strings\<close>

text \<open>
  A string is a list of 8-bit characters: the model covers the texts all of whose UTF-16
  code units are below 256. In this range the digits of \<^verbatim>\<open>\d\<close> are 0 to 9, the line
  terminators that \<^verbatim>\<open>.\<close> does not match are LF and CR, \<^verbatim>\<open>trim\<close> removes TAB, LF, VT,
  FF, CR, SPACE and NBSP, and \<^verbatim>\<open>toLowerCase\<close> moves A to Z and the capital letters of
  Latin-1. Numbers are natural numbers, printed and parsed in decimal without rounding.

  \<open>stripPrefix p s\<close> is the rest of \<open>s\<close> after its prefix \<open>p\<close>; \<open>includes_js\<close> is
  \<^verbatim>\<open>String.prototype.includes\<close>; \<open>titleMatch\<close> is the group of
  \<^verbatim>\<open>title.match(/^PR #(\d+):/)\<close> and \<open>repoMatch\<close> the group of
  \<^verbatim>\<open>body.match(/\*\*Repository:\*\* (.+)/)\<close>, the leftmost match.
\<close>

fun stripPrefix :: "string \<Rightarrow> string \<Rightarrow> string option" where
  "stripPrefix [] s = Some s"
| "stripPrefix (p # ps) [] = None"
| "stripPrefix (p # ps) (c # cs) = (if p = c then stripPrefix ps cs else None)"

fun includes_js :: "string \<Rightarrow> string \<Rightarrow> bool" where
  "includes_js [] t = (t = [])"
| "includes_js (c # cs) t = (stripPrefix t (c # cs) \<noteq> None \<or> includes_js cs t)"

definition lowerChar :: "char \<Rightarrow> char" where
  "lowerChar c =
     (let n = (of_char c :: nat)
      in if (65 \<le> n \<and> n \<le> 90) \<or> (192 \<le> n \<and> n \<le> 222 \<and> n \<noteq> 215)
         then char_of (n + 32) else c)"

definition toLowerCase :: "string \<Rightarrow> string" where
  "toLowerCase s = map lowerChar s"

definition isDigit :: "char \<Rightarrow> bool" where
  "isDigit c = (48 \<le> (of_char c :: nat) \<and> (of_char c :: nat) \<le> 57)"

definition digitVal :: "char \<Rightarrow> nat" where
  "digitVal c = of_char c - 48"

definition digitChar :: "nat \<Rightarrow> char" where
  "digitChar d = char_of (48 + d)"

fun natToString :: "nat \<Rightarrow> string" where
  "natToString n =
     (if n < 10 then [digitChar n] else natToString (n div 10) @ [digitChar (n mod 10)])"

declare natToString.simps [simp del]

definition parseInt :: "string \<Rightarrow> nat" where
  "parseInt ds = foldl (\<lambda>acc c. 10 * acc + digitVal c) 0 ds"

definition titleMatch :: "string \<Rightarrow> string option" where
  "titleMatch title =
     (case stripPrefix ''PR #'' title of
        None \<Rightarrow> None
      | Some rest \<Rightarrow>
          (let ds = takeWhile isDigit rest
           in if ds \<noteq> [] \<and> stripPrefix '':'' (dropWhile isDigit rest) \<noteq> None
              then Some ds else None))"

definition isLineTerminator :: "char \<Rightarrow> bool" where
  "isLineTerminator c = (c = CHR 0x0A \<or> c = CHR 0x0D)"

definition isWhiteSpace :: "char \<Rightarrow> bool" where
  "isWhiteSpace c =
     (c = CHR 0x09 \<or> c = CHR 0x0A \<or> c = CHR 0x0B \<or> c = CHR 0x0C \<or> c = CHR 0x0D
      \<or> c = CHR 0x20 \<or> c = CHR 0xA0)"

definition trim :: "string \<Rightarrow> string" where
  "trim s = rev (dropWhile isWhiteSpace (rev (dropWhile isWhiteSpace s)))"

definition repoMarker :: string where
  "repoMarker = ''**Repository:** ''"

definition repoMatchAt :: "string \<Rightarrow> string option" where
  "repoMatchAt s =
     (case stripPrefix repoMarker s of
        None \<Rightarrow> None
      | Some rest \<Rightarrow>
          (let g = takeWhile (\<lambda>c. \<not> isLineTerminator c) rest
           in if g = [] then None else Some g))"

fun repoMatch :: "string \<Rightarrow> string option" where
  "repoMatch [] = None"
| "repoMatch (c # cs) =
     (case repoMatchAt (c # cs) of Some g \<Rightarrow> Some g | None \<Rightarrow> repoMatch cs)"

subsection \<open>Data\<close>

text \<open>
  Node ids, item ids and project ids are opaque to the script, which only passes them on
  and tests them for presence; they are natural numbers here.

  \<open>error\<close> lists the errors \<open>findProject\<close> throws (\<open>ApiError\<close> is a rejected call thrown
  on), \<open>log\<close> the lines it prints. An \<open>issue_content\<close> is \<^verbatim>\<open>item.content\<close> with the fields
  of the \<^verbatim>\<open>Issue\<close> fragment; a content that is null, or is not an issue and so has no
  title, is \<open>None\<close>. An \<open>items_data\<close> is \<^verbatim>\<open>projectItemsResult.node?.items\<close>, where
  \<open>None\<close> is a missing part. A \<open>search_hit\<close> is what the script reads of an entry of
  \<^verbatim>\<open>searchResult.data.items\<close> and of \<^verbatim>\<open>createIssueResult.data\<close>, and \<open>issue_info\<close> the
  object \<open>findOrCreateIssue\<close> returns.

  \<open>github\<close> holds the calls of the script that reach the issues and the project items,
  each a function of the state \<open>'s\<close> of the service: the two reads return an answer, the
  three writes an answer and the next state. \<open>Inl\<close> is the message of a rejected call,
  which throws in the script.
\<close>

type_synonym node_id = nat

record project =
  project_id :: node_id
  project_title :: string
  project_number :: nat
  project_closed :: bool

record organization =
  org_projectsV2_nodes :: "project list option"

datatype error =
    PermissionDenied string
  | CannotAccessOrganization string
  | NoProjectsFound string
  | ProjectNotFound string string "string list"
  | ApiError string

datatype log =
    LogSearching string string
  | LogGraphQLError string
  | LogFoundProjects nat string
  | LogAvailableProjects "(string \<times> bool) list"
  | LogWarningClosed string
  | LogFoundProject string node_id

record issue_content =
  content_id :: node_id
  content_number :: nat
  content_title :: string
  content_body :: "string option"

record project_item =
  item_id :: node_id
  item_content :: "issue_content option"

record 'c page_info =
  hasNextPage :: bool
  endCursor :: "'c option"

record 'c items_data =
  data_nodes :: "project_item list option"
  data_pageInfo :: "'c page_info option"

type_synonym 'c items_api = "'c option \<Rightarrow> string + 'c items_data option"

record found =
  found_issue :: issue_content
  found_itemId :: node_id

record search_hit =
  hit_number :: nat
  hit_node_id :: node_id

record issue_info =
  info_issueId :: node_id
  info_issueNumber :: nat
  info_itemId :: "node_id option"
  info_isNew :: bool

record ('s, 'c) github =
  graphql_items :: "'s \<Rightarrow> node_id \<Rightarrow> 'c items_api"
  search_issues :: "'s \<Rightarrow> string \<Rightarrow> string \<Rightarrow> string \<Rightarrow> string + search_hit list option"
  issues_update ::
    "'s \<Rightarrow> string \<Rightarrow> string \<Rightarrow> nat \<Rightarrow> string \<Rightarrow> string \<Rightarrow> string list \<Rightarrow> string + 's"
  issues_create ::
    "'s \<Rightarrow> string \<Rightarrow> string \<Rightarrow> string \<Rightarrow> string \<Rightarrow> string list \<Rightarrow> string + (search_hit \<times> 's)"
  graphql_addItem :: "'s \<Rightarrow> node_id \<Rightarrow> node_id \<Rightarrow> string + (node_id option \<times> 's)"

subsection \<open>findProject (lines 10 to 87)\<close>

definition findProject ::
  "(string \<Rightarrow> string + organization option) \<Rightarrow> string \<Rightarrow> string
     \<Rightarrow> (error + project) \<times> log list" where
  "findProject graphql orgLogin projectName =
     (case graphql orgLogin of
        Inl message \<Rightarrow>
          (if includes_js message ''Must have admin rights'' \<or> includes_js message ''permission''
           then (Inl (PermissionDenied orgLogin),
                 [LogSearching projectName orgLogin, LogGraphQLError message])
           else (Inl (ApiError message),
                 [LogSearching projectName orgLogin, LogGraphQLError message]))
      | Inr None \<Rightarrow> (Inl (CannotAccessOrganization orgLogin), [LogSearching projectName orgLogin])
      | Inr (Some org) \<Rightarrow>
          (let projects = (case org_projectsV2_nodes org of None \<Rightarrow> [] | Some ns \<Rightarrow> ns);
               log1 = [LogSearching projectName orgLogin,
                       LogFoundProjects (length projects) orgLogin]
           in if length projects = 0 then (Inl (NoProjectsFound orgLogin), log1)
              else
                (let log2 = log1 @ [LogAvailableProjects
                                      (map (\<lambda>p. (project_title p, project_closed p)) projects)];
                     project = find (\<lambda>p. project_title p = projectName) projects;
                     project =
                       (if project = None
                        then find (\<lambda>p. toLowerCase (project_title p) = toLowerCase projectName)
                               projects
                        else project);
                     project =
                       (if project = None
                        then find (\<lambda>p. includes_js (toLowerCase (project_title p))
                                         (toLowerCase projectName)) projects
                        else project)
                 in case project of
                      None \<Rightarrow>
                        (Inl (ProjectNotFound projectName orgLogin (map project_title projects)),
                         log2)
                    | Some p \<Rightarrow>
                        (Inr p,
                         log2 @ (if project_closed p then [LogWarningClosed projectName] else [])
                              @ [LogFoundProject (project_title p) (project_id p)]))))"

subsection \<open>findExistingIssueInProject (lines 185 to 271)\<close>

text \<open>The body of the inner loop, lines 237 to 260, for one item.\<close>

definition checkItem :: "nat \<Rightarrow> string \<Rightarrow> project_item \<Rightarrow> found option" where
  "checkItem prNumber repository item =
     (case item_content item of
        None \<Rightarrow> None
      | Some content \<Rightarrow>
          if content_title content = [] then None
          else
            (case titleMatch (content_title content) of
               None \<Rightarrow> None
             | Some digits \<Rightarrow>
                 if parseInt digits \<noteq> prNumber then None
                 else
                   (let body = (case content_body content of None \<Rightarrow> [] | Some b \<Rightarrow> b);
                        issueRepo = map_option trim (repoMatch body)
                    in if issueRepo = Some repository
                       then Some \<lparr>found_issue = content, found_itemId = item_id item\<rparr>
                       else None)))"

fun checkItems :: "nat \<Rightarrow> string \<Rightarrow> project_item list \<Rightarrow> found option" where
  "checkItems prNumber repository [] = None"
| "checkItems prNumber repository (item # items) =
     (case checkItem prNumber repository item of
        Some f \<Rightarrow> Some f
      | None \<Rightarrow> checkItems prNumber repository items)"

text \<open>Lines 226 to 231: what the loop reads from one response.\<close>

definition itemsOf :: "'c items_data option \<Rightarrow> project_item list" where
  "itemsOf projectItemsResult =
     (case projectItemsResult of
        None \<Rightarrow> []
      | Some itemsData \<Rightarrow> (case data_nodes itemsData of None \<Rightarrow> [] | Some ns \<Rightarrow> ns))"

definition pageInfoOf :: "'c items_data option \<Rightarrow> 'c page_info option" where
  "pageInfoOf projectItemsResult =
     (case projectItemsResult of None \<Rightarrow> None | Some itemsData \<Rightarrow> data_pageInfo itemsData)"

definition hasNextPageOf :: "'c items_data option \<Rightarrow> bool" where
  "hasNextPageOf projectItemsResult =
     (case pageInfoOf projectItemsResult of None \<Rightarrow> False | Some info \<Rightarrow> hasNextPage info)"

definition endCursorOf :: "'c items_data option \<Rightarrow> 'c option" where
  "endCursorOf projectItemsResult =
     (case pageInfoOf projectItemsResult of None \<Rightarrow> None | Some info \<Rightarrow> endCursor info)"

text \<open>
  The loop of lines 220 to 263, entered with \<open>hasNextPage\<close> true. \<open>Inl\<close> is the message of
  a rejected call, \<open>None\<close> a loop that never ends.
\<close>

partial_function (option) scanProjectItems ::
  "'c items_api \<Rightarrow> nat \<Rightarrow> string \<Rightarrow> 'c option \<Rightarrow> (string + found option) option" where
  "scanProjectItems graphql prNumber repository cursor =
     (case graphql cursor of
        Inl message \<Rightarrow> Some (Inl message)
      | Inr projectItemsResult \<Rightarrow>
          (case checkItems prNumber repository (itemsOf projectItemsResult) of
             Some f \<Rightarrow> Some (Inr (Some f))
           | None \<Rightarrow>
               if hasNextPageOf projectItemsResult
               then scanProjectItems graphql prNumber repository
                      (endCursorOf projectItemsResult)
               else Some (Inr None)))"

text \<open>Lines 214 to 270: the \<^verbatim>\<open>catch\<close> of line 266 turns a rejected call into no match.\<close>

definition findExistingIssueInProject ::
  "'c items_api \<Rightarrow> nat \<Rightarrow> string \<Rightarrow> found option option" where
  "findExistingIssueInProject graphql prNumber repository =
     (case scanProjectItems graphql prNumber repository None of
        None \<Rightarrow> None
      | Some (Inl message) \<Rightarrow> Some None
      | Some (Inr r) \<Rightarrow> Some r)"


subsection \<open>createIssueBody (lines 276 to 290)\<close>

definition newline :: string where
  "newline = [CHR 0x0A]"

text \<open>
  \<open>effort\<close> and \<open>weight\<close> are the texts the template literal prints for the two numbers.
\<close>

definition createIssueBody ::
  "nat \<Rightarrow> string \<Rightarrow> string \<Rightarrow> string \<Rightarrow> stats \<Rightarrow> string \<Rightarrow> string \<Rightarrow> string" where
  "createIssueBody prNumber prUrl repository prAuthor stats effort weight =
     ''**PR:** #'' @ natToString prNumber @ newline
     @ ''**PR Link:** '' @ prUrl @ newline
     @ newline
     @ ''**Repository:** '' @ repository @ newline
     @ ''**Author:** @'' @ prAuthor @ newline
     @ newline
     @ ''**Stats:**'' @ newline
     @ ''- Files Changed: '' @ natToString (stats_filesChanged stats) @ newline
     @ ''- Additions: +'' @ natToString (stats_additions stats) @ newline
     @ ''- Deletions: -'' @ natToString (stats_deletions stats) @ newline
     @ ''- Total Changes: '' @ natToString (stats_totalChanges stats) @ newline
     @ ''- **Weight: '' @ weight @ ''**'' @ newline
     @ ''- **Effort: '' @ effort @ ''**''"

text \<open>The phrase of the search query of line 323: the title up to the colon.\<close>

definition searchPhrase :: "nat \<Rightarrow> string" where
  "searchPhrase prNumber = ''PR #'' @ natToString prNumber @ '':''"

definition issueTitle :: "nat \<Rightarrow> string \<Rightarrow> string" where
  "issueTitle prNumber prTitle = ''PR #'' @ natToString prNumber @ '': '' @ prTitle"

subsection \<open>findOrCreateIssue (lines 295 to 368)\<close>

text \<open>
  The search query of line 323 reaches the service as its three parts: owner, repository
  and the quoted phrase \<open>searchPhrase\<close>.
\<close>

definition findOrCreateIssue ::
  "('s, 'c) github \<Rightarrow> 's \<Rightarrow> string \<Rightarrow> string \<Rightarrow> nat \<Rightarrow> string \<Rightarrow> string \<Rightarrow> string
     \<Rightarrow> stats \<Rightarrow> string \<Rightarrow> string \<Rightarrow> node_id \<Rightarrow> ((error + issue_info) \<times> 's) option" where
  "findOrCreateIssue gh s orgLogin repository prNumber prTitle prUrl prAuthor stats effort
       weight projectId =
     (let issueBody = createIssueBody prNumber prUrl repository prAuthor stats effort weight;
          newTitle = issueTitle prNumber prTitle
      in case findExistingIssueInProject (graphql_items gh s projectId) prNumber repository of
           None \<Rightarrow> None
         | Some (Some projectIssue) \<Rightarrow>
             (case issues_update gh s orgLogin repository
                     (content_number (found_issue projectIssue)) newTitle issueBody [prAuthor] of
                Inl message \<Rightarrow> Some (Inl (ApiError message), s)
              | Inr s' \<Rightarrow>
                  Some (Inr \<lparr>info_issueId = content_id (found_issue projectIssue),
                             info_issueNumber = content_number (found_issue projectIssue),
                             info_itemId = Some (found_itemId projectIssue),
                             info_isNew = False\<rparr>, s'))
         | Some None \<Rightarrow>
             (case search_issues gh s orgLogin repository
                     (searchPhrase prNumber) of
                Inl message \<Rightarrow> Some (Inl (ApiError message), s)
              | Inr (Some (repoIssue # _)) \<Rightarrow>
                  (case issues_update gh s orgLogin repository (hit_number repoIssue)
                          newTitle issueBody [prAuthor] of
                     Inl message \<Rightarrow> Some (Inl (ApiError message), s)
                   | Inr s' \<Rightarrow>
                       Some (Inr \<lparr>info_issueId = hit_node_id repoIssue,
                                  info_issueNumber = hit_number repoIssue,
                                  info_itemId = None,
                                  info_isNew = False\<rparr>, s'))
              | Inr _ \<Rightarrow>
                  (case issues_create gh s orgLogin repository newTitle issueBody [prAuthor] of
                     Inl message \<Rightarrow> Some (Inl (ApiError message), s)
                   | Inr (created, s') \<Rightarrow>
                       Some (Inr \<lparr>info_issueId = hit_node_id created,
                                  info_issueNumber = hit_number created,
                                  info_itemId = None,
                                  info_isNew = True\<rparr>, s'))))"

subsection \<open>addIssueToProject (lines 373 to 404)\<close>


subsection \<open>The main function, steps 3 and 4 (lines 588 to 602)\<close>



subsection \<open>The service, as the reconciliation claims assume it\<close>

text \<open>
  A service that answers every call and keeps issues and project items faithfully: the
  issues of the organization, and the items of the one project, each an item id with the
  node id of its content.
\<close>

record issue =
  issue_node_id :: node_id
  issue_owner :: string
  issue_repo :: string
  issue_number :: nat
  issue_title :: string
  issue_body :: string
  issue_assignees :: "string list"

record world =
  world_issues :: "issue list"
  world_items :: "(node_id \<times> node_id) list"

definition contentOf :: "issue \<Rightarrow> issue_content" where
  "contentOf i =
     \<lparr>content_id = issue_node_id i, content_number = issue_number i,
      content_title = issue_title i, content_body = Some (issue_body i)\<rparr>"

definition itemView :: "world \<Rightarrow> node_id \<times> node_id \<Rightarrow> project_item" where
  "itemView w it =
     \<lparr>item_id = fst it,
      item_content =
        map_option contentOf (find (\<lambda>i. issue_node_id i = snd it) (world_issues w))\<rparr>"

definition pageSize :: nat where
  "pageSize = 100"

text \<open>Items are served in pages of \<open>pageSize\<close>; a cursor is the offset of the next item.\<close>

definition world_listItems :: "world \<Rightarrow> node_id \<Rightarrow> nat items_api" where
  "world_listItems w projectId cursor =
     (let allItems = map (itemView w) (world_items w);
          off = (case cursor of None \<Rightarrow> 0 | Some k \<Rightarrow> k);
          page = take pageSize (drop off allItems)
      in Inr (Some \<lparr>data_nodes = Some page,
                    data_pageInfo =
                      Some \<lparr>hasNextPage = (off + pageSize < length allItems),
                            endCursor = (if page = [] then None
                                         else Some (off + length page))\<rparr>\<rparr>))"

definition hitOf :: "issue \<Rightarrow> search_hit" where
  "hitOf i = \<lparr>hit_number = issue_number i, hit_node_id = issue_node_id i\<rparr>"

definition inRepo :: "string \<Rightarrow> string \<Rightarrow> issue \<Rightarrow> bool" where
  "inRepo owner repo i = (issue_owner i = owner \<and> issue_repo i = repo)"

definition world_search ::
  "world \<Rightarrow> string \<Rightarrow> string \<Rightarrow> string \<Rightarrow> string + search_hit list option" where
  "world_search w owner repo phrase =
     Inr (Some (map hitOf
       (filter (\<lambda>i. inRepo owner repo i \<and> includes_js (issue_title i) phrase)
          (world_issues w))))"

definition world_update ::
  "world \<Rightarrow> string \<Rightarrow> string \<Rightarrow> nat \<Rightarrow> string \<Rightarrow> string \<Rightarrow> string list \<Rightarrow> string + world" where
  "world_update w owner repo number title body assignees =
     (if list_ex (\<lambda>i. inRepo owner repo i \<and> issue_number i = number) (world_issues w)
      then Inr (w\<lparr>world_issues :=
                   map (\<lambda>i. if inRepo owner repo i \<and> issue_number i = number
                             then i\<lparr>issue_title := title, issue_body := body,
                                    issue_assignees := assignees\<rparr>
                             else i) (world_issues w)\<rparr>)
      else Inl ''Not Found'')"

definition freshNodeId :: "world \<Rightarrow> node_id" where
  "freshNodeId w =
     Suc (fold max (map issue_node_id (world_issues w) @ map snd (world_items w)) 0)"

definition freshItemId :: "world \<Rightarrow> node_id" where
  "freshItemId w = Suc (fold max (map fst (world_items w)) 0)"

definition nextNumber :: "world \<Rightarrow> string \<Rightarrow> string \<Rightarrow> nat" where
  "nextNumber w owner repo =
     Suc (fold max (map issue_number (filter (inRepo owner repo) (world_issues w))) 0)"

definition world_create ::
  "world \<Rightarrow> string \<Rightarrow> string \<Rightarrow> string \<Rightarrow> string \<Rightarrow> string list
     \<Rightarrow> string + (search_hit \<times> world)" where
  "world_create w owner repo title body assignees =
     (let i = \<lparr>issue_node_id = freshNodeId w, issue_owner = owner, issue_repo = repo,
               issue_number = nextNumber w owner repo, issue_title = title,
               issue_body = body, issue_assignees = assignees\<rparr>
      in Inr (hitOf i, w\<lparr>world_issues := world_issues w @ [i]\<rparr>))"

definition world_addItem ::
  "world \<Rightarrow> node_id \<Rightarrow> node_id \<Rightarrow> string + (node_id option \<times> world)" where
  "world_addItem w projectId contentId =
     Inr (Some (freshItemId w),
          w\<lparr>world_items := world_items w @ [(freshItemId w, contentId)]\<rparr>)"

definition service :: "(world, nat) github" where
  "service =
     \<lparr>graphql_items = world_listItems, search_issues = world_search,
      issues_update = world_update, issues_create = world_create,
      graphql_addItem = world_addItem\<rparr>"

section \<open>Notions of the specification, and example inputs\<close>

text \<open>
  Project resolution in the words of the specification: an ordered list of matchers, each
  tried on the whole listing, the first project that a matcher accepts wins.
\<close>

primrec firstMatch :: "(project \<Rightarrow> bool) \<Rightarrow> project list \<Rightarrow> project option" where
  "firstMatch m [] = None"
| "firstMatch m (p # ps) = (if m p then Some p else firstMatch m ps)"

definition matchers :: "string \<Rightarrow> (project \<Rightarrow> bool) list" where
  "matchers projectName =
     [\<lambda>p. project_title p = projectName,
      \<lambda>p. toLowerCase (project_title p) = toLowerCase projectName,
      \<lambda>p. includes_js (toLowerCase (project_title p)) (toLowerCase projectName)]"

primrec firstSuccess :: "(project \<Rightarrow> bool) list \<Rightarrow> project list \<Rightarrow> project option" where
  "firstSuccess [] ps = None"
| "firstSuccess (m # ms) ps =
     (case firstMatch m ps of Some p \<Rightarrow> Some p | None \<Rightarrow> firstSuccess ms ps)"

definition resolveProject :: "string \<Rightarrow> project list \<Rightarrow> project option" where
  "resolveProject projectName ps = firstSuccess (matchers projectName) ps"

text \<open>A listing where each matcher has a first project of its own.\<close>

definition exampleProjects :: "project list" where
  "exampleProjects =
     [\<lparr>project_id = 1, project_title = ''Team efforts 2024'', project_number = 1,
       project_closed = False\<rparr>,
      \<lparr>project_id = 2, project_title = ''EFFORTS'', project_number = 2,
       project_closed = False\<rparr>,
      \<lparr>project_id = 3, project_title = ''Efforts'', project_number = 3,
       project_closed = True\<rparr>]"

definition exampleOrg :: "string \<Rightarrow> string + organization option" where
  "exampleOrg orgLogin = Inr (Some \<lparr>org_projectsV2_nodes = Some exampleProjects\<rparr>)"

text \<open>
  The two parts of the key of a tracking issue, as the specification words them. A title
  parses as \<^verbatim>\<open>PR #<number>:\<close> when it starts with \<^verbatim>\<open>PR #\<close>, a nonempty run of
  digits and a colon; the number is the decimal value of the digits.
\<close>

definition titleParsesAs :: "string \<Rightarrow> nat \<Rightarrow> bool" where
  "titleParsesAs title n =
     (\<exists>ds rest. title = ''PR #'' @ ds @ '':'' @ rest \<and> ds \<noteq> [] \<and> (\<forall>c\<in>set ds. isDigit c)
        \<and> parseInt ds = n)"

text \<open>
  The marker \<^verbatim>\<open>**Repository:** \<close> stands at offset \<open>k\<close> of the body, followed by at least
  one character of the same line.
\<close>

definition markerAt :: "string \<Rightarrow> nat \<Rightarrow> bool" where
  "markerAt body k =
     (\<exists>c rest. drop k body = repoMarker @ c # rest \<and> \<not> isLineTerminator c)"

text \<open>The rest of the line that follows the first marker of the body.\<close>

definition firstRepositoryLine :: "string \<Rightarrow> string \<Rightarrow> bool" where
  "firstRepositoryLine body name =
     (\<exists>k. markerAt body k \<and> (\<forall>j<k. \<not> markerAt body j)
        \<and> name = takeWhile (\<lambda>c. \<not> isLineTerminator c) (drop (k + length repoMarker) body))"

text \<open>Some line of the body is the marker followed by \<open>name\<close>, and nothing else.\<close>

definition hasRepositoryLine :: "string \<Rightarrow> string \<Rightarrow> bool" where
  "hasRepositoryLine body name =
     (\<exists>pre post. body = pre @ repoMarker @ name @ post
        \<and> (pre = [] \<or> isLineTerminator (last pre))
        \<and> (post = [] \<or> isLineTerminator (hd post)))"

definition bodyOf :: "issue_content \<Rightarrow> string" where
  "bodyOf content = (case content_body content of None \<Rightarrow> [] | Some b \<Rightarrow> b)"

text \<open>Three items of PR 5: one written by this program, one with two marker lines, one
  with no marker.\<close>

definition canonicalItem :: project_item where
  "canonicalItem =
     \<lparr>item_id = 11,
      item_content = Some \<lparr>content_id = 21, content_number = 7,
        content_title = ''PR #5: Fix'',
        content_body = Some (''**PR:** #5'' @ newline @ ''**Repository:** target'' @ newline
                             @ ''**Author:** @ann'')\<rparr>\<rparr>"

definition twoMarkerItem :: project_item where
  "twoMarkerItem =
     \<lparr>item_id = 12,
      item_content = Some \<lparr>content_id = 22, content_number = 8,
        content_title = ''PR #5: Fix'',
        content_body = Some (''**Repository:** other'' @ newline
                             @ ''**Repository:** target'')\<rparr>\<rparr>"

definition noMarkerItem :: project_item where
  "noMarkerItem =
     \<lparr>item_id = 13,
      item_content = Some \<lparr>content_id = 23, content_number = 9,
        content_title = ''PR #5: Fix'', content_body = Some ''an older format''\<rparr>\<rparr>"

text \<open>
  Within \<open>k\<close> requests the service gives the loop a reason to stop: a rejected call, a
  page with a matching item, or a page that does not announce a next one.
\<close>

fun stopsWithin :: "nat \<Rightarrow> 'c items_api \<Rightarrow> nat \<Rightarrow> string \<Rightarrow> 'c option \<Rightarrow> bool" where
  "stopsWithin 0 graphql prNumber repository cursor = False"
| "stopsWithin (Suc k) graphql prNumber repository cursor =
     (case graphql cursor of
        Inl message \<Rightarrow> True
      | Inr projectItemsResult \<Rightarrow>
          checkItems prNumber repository (itemsOf projectItemsResult) \<noteq> None
          \<or> \<not> hasNextPageOf projectItemsResult
          \<or> stopsWithin k graphql prNumber repository (endCursorOf projectItemsResult))"

definition itemsPage :: "project_item list \<Rightarrow> bool \<Rightarrow> 'c option \<Rightarrow> string + 'c items_data option" where
  "itemsPage ns nextPage cur =
     Inr (Some \<lparr>data_nodes = Some ns,
                data_pageInfo = Some \<lparr>hasNextPage = nextPage, endCursor = cur\<rparr>\<rparr>)"

text \<open>A service that never signals completion, and whose cursor does not advance.\<close>

definition stuckService :: "nat items_api" where
  "stuckService cursor = itemsPage [] True (Some 0)"

text \<open>A service with three pages, and one whose second page is rejected.\<close>

definition threePages :: "nat items_api" where
  "threePages cursor =
     (case cursor of
        None \<Rightarrow> itemsPage [noMarkerItem] True (Some 1)
      | Some k \<Rightarrow>
          if k = 1 then itemsPage [twoMarkerItem] True (Some 2) else itemsPage [] False None)"

definition failingSecondPage :: "nat items_api" where
  "failingSecondPage cursor =
     (case cursor of
        None \<Rightarrow> itemsPage [noMarkerItem] True (Some 1)
      | Some k \<Rightarrow> Inl ''Bad gateway'')"


text \<open>The listing of a project that holds no item.\<close>

definition emptyProject :: "'s \<Rightarrow> node_id \<Rightarrow> 'c items_api" where
  "emptyProject s projectId cursor = Inr (Some \<lparr>data_nodes = Some [], data_pageInfo = None\<rparr>)"

text \<open>The input of a run for PR 5 of the repository \<open>target\<close>.\<close>

definition exampleStats :: stats where
  "exampleStats =
     \<lparr>stats_filesChanged = 2, stats_additions = 30, stats_deletions = 4,
      stats_totalChanges = 34, stats_effort = compute_effort 30 4,
      stats_changedLines = Map.empty, stats_files = [''a.js'', ''b.js'']\<rparr>"


definition emptyWorld :: world where
  "emptyWorld = \<lparr>world_issues = [], world_items = []\<rparr>"

text \<open>The faithful service, with a listing of project items that fails on its second page.\<close>

definition flakyService :: "(world, nat) github" where
  "flakyService = service\<lparr>graphql_items := \<lambda>w projectId. failingSecondPage\<rparr>"












section \<open>Properties of StatsCollector\<close>

subsection \<open>The effort score\<close>

lemma remainder_bounds:
  fixes x :: real
  shows "0 \<le> x - real_of_int \<lfloor>x / 200\<rfloor> * 200"
    and "x - real_of_int \<lfloor>x / 200\<rfloor> * 200 < 200"
proof -
  define k where "k = \<lfloor>x / 200\<rfloor>"
  have lo: "real_of_int k \<le> x / 200"
    unfolding k_def by (rule of_int_floor_le)
  have hi: "x / 200 < real_of_int k + 1"
    unfolding k_def by linarith
  from lo have "real_of_int k * 200 \<le> x"
    by (simp add: field_simps)
  then show "0 \<le> x - real_of_int \<lfloor>x / 200\<rfloor> * 200"
    unfolding k_def by linarith
  from hi have "x < (real_of_int k + 1) * 200"
    by (simp add: field_simps)
  then show "x - real_of_int \<lfloor>x / 200\<rfloor> * 200 < 200"
    unfolding k_def by (simp add: algebra_simps)
qed

lemma compute_effort_eq:
  "compute_effort a d =
     Some (real_of_int \<lfloor>(real d * 0.2 + real a) / 200\<rfloor> * sqrt 200
           + sqrt (real d * 0.2 + real a - real_of_int \<lfloor>(real d * 0.2 + real a) / 200\<rfloor> * 200))"
  using remainder_bounds(1) [of "real d * 0.2 + real a"]
  by (simp add: compute_effort_def effort_expr_def Math_sqrt_def lineScoreUnit_def Let_def)





lemma sqrt5000: "5 * sqrt 200 = sqrt 5000"
proof -
  have "sqrt 5000 = sqrt (25 * 200)" by simp
  also have "\<dots> = sqrt 25 * sqrt 200" by (rule real_sqrt_mult)
  also have "sqrt 25 = 5" using real_sqrt_abs [of 5] by simp
  finally show ?thesis by simp
qed

lemma approx: "\<bar>5 * sqrt 200 - 7071 / 100\<bar> < 1 / 200"
proof -
  have "(14141 / 200 :: real)\<^sup>2 < 5000" by (simp add: power2_eq_square)
  then have lo: "14141 / 200 < sqrt 5000" by (rule real_less_rsqrt)
  have "(5000::real) < (14143 / 200)\<^sup>2" by (simp add: power2_eq_square)
  then have hi: "sqrt 5000 < 14143 / 200" by (intro real_less_lsqrt) simp_all
  from lo hi show ?thesis unfolding sqrt5000 by linarith
qed

text \<open>
  Claim C2. For all counts of added and deleted lines, the effort the script computes is
  the value of the specification's formula: lineScore = deletions * 0.2 + additions * 1.0,
  unitCount = floor (lineScore / 200), effort = unitCount * sqrt 200 +
  sqrt (lineScore - unitCount * 200). With 1000 additions and no deletions the effort is
  5 * sqrt 200, which lies within 0.005 of 70.71; with no changed line it is 0.
\<close>

theorem effort_formula:
  "compute_effort a d = Some (spec_effort a d)
   \<and> compute_effort 1000 0 = Some (5 * sqrt 200)
   \<and> \<bar>5 * sqrt 200 - 7071 / 100\<bar> < 1 / 200
   \<and> compute_effort 0 0 = Some 0"
  using approx
  by (simp add: compute_effort_eq spec_effort_def spec_unitCount_def spec_lineScore_def)






subsection \<open>Pagination of the changed files\<close>

lemma fetch_stops_at_short_page:
  assumes "\<forall>i<k. \<exists>d. listFiles (page + i) = Inr d \<and> perPage \<le> length d"
    and "listFiles (page + k) = Inr lastPage"
    and "length lastPage < perPage"
  shows "fetchAllFiles listFiles page acc =
           Some (Inr (acc @ concat (map (\<lambda>i. pageData listFiles (page + i)) [0..<k]) @ lastPage))"
  using assms
proof (induction k arbitrary: page acc)
  case 0
  then show ?case
    by (subst fetchAllFiles.simps) simp
next
  case (Suc k)
  from Suc.prems(1) obtain d where d: "listFiles page = Inr d" "perPage \<le> length d"
    by force
  have full: "\<forall>i<k. \<exists>d. listFiles (page + 1 + i) = Inr d \<and> perPage \<le> length d"
    using Suc.prems(1) by (metis Suc_less_eq add.assoc plus_1_eq_Suc add_Suc_right add_Suc)
  have lst: "listFiles (page + 1 + k) = Inr lastPage"
    using Suc.prems(2) by simp
  have pos: "0 < perPage"
    by (simp add: perPage_def)
  have ne: "d \<noteq> []" "\<not> length d < perPage"
    using d(2) pos by auto
  have "fetchAllFiles listFiles page acc = fetchAllFiles listFiles (page + 1) (acc @ d)"
    using d(1) ne by (subst fetchAllFiles.simps) simp
  also have "\<dots> = Some (Inr ((acc @ d) @
      concat (map (\<lambda>i. pageData listFiles (page + 1 + i)) [0..<k]) @ lastPage))"
    by (rule Suc.IH [OF full lst Suc.prems(3)])
  also have "map (\<lambda>i. pageData listFiles (page + 1 + i)) [0..<k]
      = map (\<lambda>i. pageData listFiles (page + i)) [1..<Suc k]"
    by (simp add: map_Suc_upt [symmetric] del: upt_Suc)
  also have "(acc @ d) @ concat (map (\<lambda>i. pageData listFiles (page + i)) [1..<Suc k]) @ lastPage
      = acc @ concat (map (\<lambda>i. pageData listFiles (page + i)) [0..<Suc k]) @ lastPage"
    using d(1) by (simp add: upt_conv_Cons pageData_def del: upt_Suc)
  finally show ?case .
qed

lemma fetch_pagedFiles:
  "0 < page \<Longrightarrow>
   fetchAllFiles (pagedFiles fs) page acc = Some (Inr (acc @ drop ((page - 1) * perPage) fs))"
proof (induction "length fs - (page - 1) * perPage" arbitrary: page acc rule: less_induct)
  case less
  define off where "off = (page - 1) * perPage"
  define d where "d = take perPage (drop off fs)"
  have api: "pagedFiles fs page = Inr d"
    by (simp add: pagedFiles_def d_def off_def)
  have len: "length d = min perPage (length fs - off)"
    by (simp add: d_def min_def)
  consider (empty) "length d = 0" | (short) "0 < length d" "length d < perPage"
    | (full) "perPage \<le> length d"
    by linarith
  then show ?case
  proof cases
    case empty
    then have "drop off fs = []"
      using len by (simp add: perPage_def min_def split: if_splits)
    with empty api show ?thesis
      by (subst fetchAllFiles.simps) (simp add: off_def)
  next
    case short
    then have "d = drop off fs"
      using len by (simp add: d_def min_def split: if_splits)
    with short api show ?thesis
      by (subst fetchAllFiles.simps) (simp add: off_def)
  next
    case full
    then have more: "perPage \<le> length fs - off"
      using len by simp
    have off': "(page + 1 - 1) * perPage = off + perPage"
      using less.prems by (simp add: off_def algebra_simps)
    have "length fs - (page + 1 - 1) * perPage < length fs - (page - 1) * perPage"
      using more unfolding off' by (simp add: off_def perPage_def)
    then have IH: "fetchAllFiles (pagedFiles fs) (page + 1) (acc @ d)
        = Some (Inr ((acc @ d) @ drop ((page + 1 - 1) * perPage) fs))"
      by (rule less.hyps) simp
    have "d @ drop (off + perPage) fs = drop off fs"
      unfolding d_def by (metis add.commute append_take_drop_id drop_drop)
    then have "(acc @ d) @ drop ((page + 1 - 1) * perPage) fs = acc @ drop off fs"
      unfolding off' by simp
    moreover have "d \<noteq> []" "\<not> length d < perPage"
      using full by (auto simp: perPage_def)
    ultimately show ?thesis
      using IH api by (subst fetchAllFiles.simps) (simp add: off_def)
  qed
qed


lemma computeStats_Nil:
  "computeStats [] =
     \<lparr>stats_filesChanged = 0, stats_additions = 0, stats_deletions = 0,
      stats_totalChanges = 0, stats_effort = Some 0, stats_changedLines = Map.empty,
      stats_files = []\<rparr>"
  by (simp add: computeStats_def compute_effort_eq)

text \<open>
  Claim C8. The loop over the pages of changed files goes on while each page is full (it
  holds at least \<open>perPage\<close> files) and stops at the first short or empty page, with
  every file of the pages read so far collected in order. Against a service that serves
  the files \<open>fs\<close> in pages of \<open>perPage\<close>, the script ends for every length of \<open>fs\<close>
  and its statistics cover all of \<open>fs\<close>, no file left out. With no file at all it ends at
  the first, empty page and writes statistics that are all zero, not an error.
\<close>

theorem files_pagination:
  "((\<forall>i<k. \<exists>d. listFiles (page + i) = Inr d \<and> perPage \<le> length d)
      \<and> listFiles (page + k) = Inr lastPage \<and> length lastPage < perPage
     \<longrightarrow> fetchAllFiles listFiles page acc =
           Some (Inr (acc @ concat (map (\<lambda>i. pageData listFiles (page + i)) [0..<k])
                        @ lastPage)))
   \<and> getPrStats (pagedFiles fs) = Some (Inr (computeStats fs))
   \<and> stats_files (computeStats fs) = map file_filename fs
   \<and> stats_filesChanged (computeStats fs) = length fs
   \<and> getPrStats (pagedFiles []) =
       Some (Inr \<lparr>stats_filesChanged = 0, stats_additions = 0, stats_deletions = 0,
                  stats_totalChanges = 0, stats_effort = Some 0,
                  stats_changedLines = Map.empty, stats_files = []\<rparr>)"
proof -
  have all: "getPrStats (pagedFiles xs) = Some (Inr (computeStats xs))" for xs
    using fetch_pagedFiles [of 1 xs "[]"] by (simp add: getPrStats_def)
  have fields: "stats_files (computeStats fs) = map file_filename fs"
    "stats_filesChanged (computeStats fs) = length fs"
    by (simp_all add: computeStats_def Let_def)
  show ?thesis
    using fetch_stops_at_short_page [of k listFiles page lastPage acc] all [of fs] all [of "[]"]
      fields
    by (simp only: computeStats_Nil) blast
qed

theorem files_pagination_witness:
  "fetchAllFiles examplePages 1 [] = Some (Inr (replicate 137 exampleFile))
   \<and> getPrStats (pagedFiles (replicate 237 exampleFile))
       = Some (Inr (computeStats (replicate 237 exampleFile)))
   \<and> stats_filesChanged (computeStats (replicate 237 exampleFile)) = 237"
proof -
  have pages: "(\<forall>i<1. \<exists>d. examplePages (1 + i) = Inr d \<and> perPage \<le> length d)
      \<and> examplePages (1 + 1) = Inr (replicate 37 exampleFile)
      \<and> length (replicate 37 exampleFile) < perPage"
    by (simp add: examplePages_def perPage_def)
  have "replicate 100 exampleFile @ replicate 37 exampleFile = replicate 137 exampleFile"
    by (simp add: replicate_add [symmetric])
  with pages show ?thesis
    using files_pagination [of 1 examplePages 1 "replicate 37 exampleFile" "[]"
        "replicate 237 exampleFile"]
    by (simp add: pageData_def examplePages_def)
qed

section \<open>Properties of ProjectSyncer\<close>

subsection \<open>Strings\<close>

lemma char_of_eq_iff: "char_of (n::nat) = c \<longleftrightarrow> n mod 256 = of_char c"
proof
  assume "char_of n = c"
  then have "of_char (char_of n) = (of_char c :: nat)" by simp
  then show "n mod 256 = of_char c" by simp
next
  assume "n mod 256 = of_char c"
  then have "char_of (n mod 256) = char_of (of_char c :: nat)" by simp
  then show "char_of n = c" by simp
qed

lemma eq_char_of_iff: "c = char_of (n::nat) \<longleftrightarrow> of_char c = n mod 256"
  using char_of_eq_iff [of n c] by auto

lemma stripPrefix_Some_iff: "stripPrefix p s = Some r \<longleftrightarrow> s = p @ r"
  by (induction p s rule: stripPrefix.induct) auto

lemma stripPrefix_append [simp]: "stripPrefix p (p @ r) = Some r"
  by (simp add: stripPrefix_Some_iff)


subsection \<open>Project resolution\<close>

lemma find_eq_firstMatch: "find m ps = firstMatch m ps"
  by (induction ps) auto

lemma firstMatch_Some_iff:
  "firstMatch m ps = Some p \<longleftrightarrow>
     (\<exists>i<length ps. ps ! i = p \<and> m p \<and> (\<forall>j<i. \<not> m (ps ! j)))"
  unfolding find_eq_firstMatch [symmetric] find_Some_iff by blast

text \<open>
  Claim C6. When the listing of the organization's projects succeeds, \<open>findProject\<close>
  applies the three matchers in order (the exact title, the title compared without
  regard to case, the lower-cased name as a part of the lower-cased title), each matcher
  taking the first project of the listing it accepts; it returns that project, also when
  the project is closed, in which case the warning is among the log lines; and when no
  matcher accepts a project it fails, with the error for an empty listing or the error
  that names the project that was not found.
\<close>

theorem findProject_resolution:
  assumes "graphql orgLogin = Inr (Some org)"
    and "projects = (case org_projectsV2_nodes org of None \<Rightarrow> [] | Some ns \<Rightarrow> ns)"
  shows "(case resolveProject projectName projects of
            Some p \<Rightarrow>
              fst (findProject graphql orgLogin projectName) = Inr p
              \<and> (project_closed p \<longrightarrow>
                   LogWarningClosed projectName
                     \<in> set (snd (findProject graphql orgLogin projectName)))
          | None \<Rightarrow>
              fst (findProject graphql orgLogin projectName) =
                (if projects = [] then Inl (NoProjectsFound orgLogin)
                 else Inl (ProjectNotFound projectName orgLogin (map project_title projects))))"
  using assms
  by (auto simp: findProject_def resolveProject_def matchers_def find_eq_firstMatch Let_def
      split: option.splits)

theorem findProject_resolution_witness:
  "fst (findProject exampleOrg ''acme'' ''Efforts'') = Inr (exampleProjects ! 2)
   \<and> LogWarningClosed ''Efforts'' \<in> set (snd (findProject exampleOrg ''acme'' ''Efforts''))
   \<and> fst (findProject exampleOrg ''acme'' ''efforts'') = Inr (exampleProjects ! 1)
   \<and> fst (findProject exampleOrg ''acme'' ''effort'') = Inr (exampleProjects ! 0)
   \<and> fst (findProject exampleOrg ''acme'' ''Roadmap'')
       = Inl (ProjectNotFound ''Roadmap'' ''acme'' (map project_title exampleProjects))"
  using findProject_resolution [of exampleOrg "''acme''"
      "\<lparr>org_projectsV2_nodes = Some exampleProjects\<rparr>" exampleProjects "''Efforts''"]
    findProject_resolution [of exampleOrg "''acme''"
      "\<lparr>org_projectsV2_nodes = Some exampleProjects\<rparr>" exampleProjects "''efforts''"]
    findProject_resolution [of exampleOrg "''acme''"
      "\<lparr>org_projectsV2_nodes = Some exampleProjects\<rparr>" exampleProjects "''effort''"]
    findProject_resolution [of exampleOrg "''acme''"
      "\<lparr>org_projectsV2_nodes = Some exampleProjects\<rparr>" exampleProjects "''Roadmap''"]
  by (simp add: exampleOrg_def exampleProjects_def resolveProject_def matchers_def
      toLowerCase_def lowerChar_def char_of_eq_iff eq_char_of_iff)

subsection \<open>Matching an item\<close>

lemma not_isDigit_colon: "\<not> isDigit CHR '':''"
  by (simp add: isDigit_def)

lemma titleMatch_Some_iff:
  "titleMatch title = Some ds \<longleftrightarrow>
     (\<exists>rest. title = ''PR #'' @ ds @ '':'' @ rest \<and> ds \<noteq> [] \<and> (\<forall>c\<in>set ds. isDigit c))"
proof
  assume m: "titleMatch title = Some ds"
  then obtain r where r: "stripPrefix ''PR #'' title = Some r"
    by (auto simp: titleMatch_def split: option.splits)
  with m have ds: "ds = takeWhile isDigit r" "ds \<noteq> []"
    and "stripPrefix '':'' (dropWhile isDigit r) \<noteq> None"
    by (auto simp: titleMatch_def Let_def split: if_splits)
  then obtain rest where rest: "dropWhile isDigit r = '':'' @ rest"
    by (auto simp: stripPrefix_Some_iff)
  have "r = takeWhile isDigit r @ dropWhile isDigit r"
    by simp
  with rest ds have "r = ds @ '':'' @ rest"
    by simp
  moreover from r have "title = ''PR #'' @ r"
    by (simp only: stripPrefix_Some_iff)
  moreover have "\<forall>c\<in>set ds. isDigit c"
    unfolding ds(1) by (auto dest: set_takeWhileD)
  ultimately show "\<exists>rest. title = ''PR #'' @ ds @ '':'' @ rest \<and> ds \<noteq> [] \<and> (\<forall>c\<in>set ds. isDigit c)"
    using ds(2) by auto
next
  assume "\<exists>rest. title = ''PR #'' @ ds @ '':'' @ rest \<and> ds \<noteq> [] \<and> (\<forall>c\<in>set ds. isDigit c)"
  then obtain rest where t: "title = ''PR #'' @ (ds @ CHR '':'' # rest)" and ne: "ds \<noteq> []"
    and dig: "\<forall>c\<in>set ds. isDigit c"
    by auto
  have sp: "stripPrefix ''PR #'' title = Some (ds @ CHR '':'' # rest)"
    unfolding t by (rule stripPrefix_append)
  have tw: "takeWhile isDigit (ds @ CHR '':'' # rest) = ds"
    using dig not_isDigit_colon by (simp add: takeWhile_append2)
  have dw: "dropWhile isDigit (ds @ CHR '':'' # rest) = CHR '':'' # rest"
    using dig not_isDigit_colon by (simp add: dropWhile_append2)
  show "titleMatch title = Some ds"
    unfolding titleMatch_def sp using ne by (simp add: tw dw Let_def)
qed

lemma repoMatchAt_Some_iff:
  "repoMatchAt s = Some g \<longleftrightarrow>
     (\<exists>c rest. s = repoMarker @ c # rest \<and> \<not> isLineTerminator c
        \<and> g = takeWhile (\<lambda>c. \<not> isLineTerminator c) (c # rest))"
proof
  assume m: "repoMatchAt s = Some g"
  then obtain r where r: "stripPrefix repoMarker s = Some r"
    by (auto simp: repoMatchAt_def split: option.splits)
  with m have g: "g = takeWhile (\<lambda>c. \<not> isLineTerminator c) r" "g \<noteq> []"
    by (auto simp: repoMatchAt_def Let_def split: if_splits)
  then obtain c rest where cr: "r = c # rest" "\<not> isLineTerminator c"
    by (cases r) (auto split: if_splits)
  from r have "s = repoMarker @ r"
    by (simp only: stripPrefix_Some_iff)
  with cr g show "\<exists>c rest. s = repoMarker @ c # rest \<and> \<not> isLineTerminator c
        \<and> g = takeWhile (\<lambda>c. \<not> isLineTerminator c) (c # rest)"
    by blast
next
  assume "\<exists>c rest. s = repoMarker @ c # rest \<and> \<not> isLineTerminator c
        \<and> g = takeWhile (\<lambda>c. \<not> isLineTerminator c) (c # rest)"
  then obtain c rest where s: "s = repoMarker @ c # rest" and c: "\<not> isLineTerminator c"
    and g: "g = takeWhile (\<lambda>c. \<not> isLineTerminator c) (c # rest)"
    by blast
  have "stripPrefix repoMarker s = Some (c # rest)"
    unfolding s by (rule stripPrefix_append)
  then show "repoMatchAt s = Some g"
    using c g by (simp add: repoMatchAt_def)
qed

lemma repoMatchAt_markerAt: "repoMatchAt s \<noteq> None \<longleftrightarrow> markerAt s 0"
proof -
  have "repoMatchAt s \<noteq> None \<longleftrightarrow> (\<exists>g. repoMatchAt s = Some g)"
    by auto
  also have "\<dots> \<longleftrightarrow> markerAt s 0"
    unfolding repoMatchAt_Some_iff markerAt_def by auto
  finally show ?thesis .
qed

lemma markerAt_Nil: "\<not> markerAt [] k"
  by (simp add: markerAt_def repoMarker_def)

lemma markerAt_Suc: "markerAt (c # cs) (Suc k) = markerAt cs k"
  by (simp add: markerAt_def)

lemma repoMatch_Some_iff: "repoMatch body = Some g \<longleftrightarrow> firstRepositoryLine body g"
proof (induction body)
  case Nil
  then show ?case
    by (simp add: firstRepositoryLine_def markerAt_Nil)
next
  case (Cons c cs)
  show ?case
  proof (cases "repoMatchAt (c # cs)")
    case (Some g')
    then have at0: "markerAt (c # cs) 0"
      using repoMatchAt_markerAt [of "c # cs"] by simp
    from Some obtain d rest where s: "c # cs = repoMarker @ d # rest"
      and g': "g' = takeWhile (\<lambda>c. \<not> isLineTerminator c) (d # rest)"
      unfolding repoMatchAt_Some_iff by blast
    have line0: "takeWhile (\<lambda>c. \<not> isLineTerminator c) (drop (0 + length repoMarker) (c # cs)) = g'"
      unfolding s g' by simp
    have "firstRepositoryLine (c # cs) g \<longleftrightarrow> g = g'"
    proof
      assume "firstRepositoryLine (c # cs) g"
      then obtain k where k: "markerAt (c # cs) k" "\<forall>j<k. \<not> markerAt (c # cs) j"
        and g: "g = takeWhile (\<lambda>c. \<not> isLineTerminator c) (drop (k + length repoMarker) (c # cs))"
        unfolding firstRepositoryLine_def by blast
      from k(2) at0 have "k = 0"
        by (cases k) auto
      with g line0 show "g = g'"
        by simp
    next
      assume "g = g'"
      with at0 line0 show "firstRepositoryLine (c # cs) g"
        unfolding firstRepositoryLine_def by (intro exI [of _ 0]) simp
    qed
    with Some show ?thesis
      by auto
  next
    case None
    then have no0: "\<not> markerAt (c # cs) 0"
      using repoMatchAt_markerAt [of "c # cs"] by simp
    have "firstRepositoryLine (c # cs) g \<longleftrightarrow> firstRepositoryLine cs g"
    proof
      assume "firstRepositoryLine (c # cs) g"
      then obtain k where k: "markerAt (c # cs) k" "\<forall>j<k. \<not> markerAt (c # cs) j"
        and g: "g = takeWhile (\<lambda>c. \<not> isLineTerminator c) (drop (k + length repoMarker) (c # cs))"
        unfolding firstRepositoryLine_def by blast
      from k(1) no0 obtain k' where k': "k = Suc k'"
        by (cases k) auto
      have "markerAt cs k'"
        using k(1) unfolding k' markerAt_Suc .
      moreover have "\<forall>j<k'. \<not> markerAt cs j"
        using k(2) unfolding k' by (metis Suc_less_eq markerAt_Suc)
      moreover have "g = takeWhile (\<lambda>c. \<not> isLineTerminator c) (drop (k' + length repoMarker) cs)"
        using g unfolding k' by simp
      ultimately show "firstRepositoryLine cs g"
        unfolding firstRepositoryLine_def by blast
    next
      assume "firstRepositoryLine cs g"
      then obtain k where k: "markerAt cs k" "\<forall>j<k. \<not> markerAt cs j"
        and g: "g = takeWhile (\<lambda>c. \<not> isLineTerminator c) (drop (k + length repoMarker) cs)"
        unfolding firstRepositoryLine_def by blast
      have "markerAt (c # cs) (Suc k)"
        using k(1) by (simp only: markerAt_Suc)
      moreover have "\<forall>j<Suc k. \<not> markerAt (c # cs) j"
      proof (intro allI impI)
        fix j assume "j < Suc k"
        then show "\<not> markerAt (c # cs) j"
          using no0 k(2) by (cases j) (auto simp: markerAt_Suc)
      qed
      moreover have "g = takeWhile (\<lambda>c. \<not> isLineTerminator c)
          (drop (Suc k + length repoMarker) (c # cs))"
        using g by simp
      ultimately show "firstRepositoryLine (c # cs) g"
        unfolding firstRepositoryLine_def by blast
    qed
    with None Cons.IH show ?thesis
      by simp
  qed
qed

lemma repoMatch_None_iff: "repoMatch body = None \<longleftrightarrow> (\<forall>k. \<not> markerAt body k)"
proof (induction body)
  case Nil
  then show ?case by (simp add: markerAt_Nil)
next
  case (Cons c cs)
  have split: "(\<forall>k. \<not> markerAt (c # cs) k) \<longleftrightarrow> \<not> markerAt (c # cs) 0 \<and> (\<forall>k. \<not> markerAt cs k)"
    by (metis markerAt_Suc not0_implies_Suc)
  show ?case
    using Cons.IH repoMatchAt_markerAt [of "c # cs"] unfolding split
    by (cases "repoMatchAt (c # cs)") auto
qed

lemma checkItems_Some_iff:
  "checkItems n r items = Some f \<longleftrightarrow>
     (\<exists>i<length items. checkItem n r (items ! i) = Some f
        \<and> (\<forall>j<i. checkItem n r (items ! j) = None))"
proof (induction items)
  case Nil
  then show ?case by simp
next
  case (Cons item items)
  show ?case
  proof (cases "checkItem n r item")
    case None
    have "(\<exists>i<length (item # items). checkItem n r ((item # items) ! i) = Some f
        \<and> (\<forall>j<i. checkItem n r ((item # items) ! j) = None))
      \<longleftrightarrow> (\<exists>i<length items. checkItem n r (items ! i) = Some f
        \<and> (\<forall>j<i. checkItem n r (items ! j) = None))" (is "?L \<longleftrightarrow> ?R")
    proof
      assume ?L
      then obtain i where i: "i < length (item # items)"
        "checkItem n r ((item # items) ! i) = Some f"
        "\<forall>j<i. checkItem n r ((item # items) ! j) = None"
        by blast
      from i(2) None obtain i' where i': "i = Suc i'"
        by (cases i) auto
      have "\<forall>j<i'. checkItem n r (items ! j) = None"
        using i(3) unfolding i' by (metis Suc_less_eq nth_Cons_Suc)
      with i(1,2) show ?R
        unfolding i' by auto
    next
      assume ?R
      then obtain i where i: "i < length items" "checkItem n r (items ! i) = Some f"
        "\<forall>j<i. checkItem n r (items ! j) = None"
        by blast
      have "\<forall>j<Suc i. checkItem n r ((item # items) ! j) = None"
      proof (intro allI impI)
        fix j assume "j < Suc i"
        then show "checkItem n r ((item # items) ! j) = None"
          using None i(3) by (cases j) auto
      qed
      with i(1,2) show ?L
        by (intro exI [of _ "Suc i"]) simp
    qed
    with None Cons.IH show ?thesis
      by simp
  next
    case (Some f')
    have "(\<exists>i<length (item # items). checkItem n r ((item # items) ! i) = Some f
        \<and> (\<forall>j<i. checkItem n r ((item # items) ! j) = None)) \<longleftrightarrow> f = f'" (is "?L \<longleftrightarrow> _")
    proof
      assume ?L
      then obtain i where i: "checkItem n r ((item # items) ! i) = Some f"
        "\<forall>j<i. checkItem n r ((item # items) ! j) = None"
        by blast
      from i(2) Some have "i = 0"
        by (cases i) auto
      with i(1) Some show "f = f'"
        by simp
    next
      assume "f = f'"
      with Some show ?L
        by (intro exI [of _ 0]) simp
    qed
    with Some show ?thesis
      by auto
  qed
qed

lemma checkItem_Some_iff:
  "checkItem prNumber repository item = Some f \<longleftrightarrow>
     (\<exists>content. item_content item = Some content
        \<and> titleParsesAs (content_title content) prNumber
        \<and> (\<exists>name. firstRepositoryLine (bodyOf content) name \<and> trim name = repository)
        \<and> f = \<lparr>found_issue = content, found_itemId = item_id item\<rparr>)"
proof (cases "item_content item")
  case None
  then show ?thesis
    by (simp add: checkItem_def)
next
  case (Some content)
  have title: "titleParsesAs (content_title content) prNumber \<longleftrightarrow>
      (\<exists>ds. titleMatch (content_title content) = Some ds \<and> parseInt ds = prNumber)"
    unfolding titleParsesAs_def titleMatch_Some_iff by blast
  have repo: "(\<exists>name. firstRepositoryLine (bodyOf content) name \<and> trim name = repository) \<longleftrightarrow>
      map_option trim (repoMatch (bodyOf content)) = Some repository"
    unfolding repoMatch_Some_iff [symmetric] by auto
  have empty: "titleMatch [] = None"
    by (simp add: titleMatch_def)
  have ci: "checkItem prNumber repository item =
      (if (\<exists>ds. titleMatch (content_title content) = Some ds \<and> parseInt ds = prNumber)
          \<and> map_option trim (repoMatch (bodyOf content)) = Some repository
       then Some \<lparr>found_issue = content, found_itemId = item_id item\<rparr> else None)"
    using Some empty by (auto simp: checkItem_def bodyOf_def Let_def split: option.splits)
  have "(\<exists>c. item_content item = Some c
         \<and> titleParsesAs (content_title c) prNumber
         \<and> (\<exists>name. firstRepositoryLine (bodyOf c) name \<and> trim name = repository)
         \<and> f = \<lparr>found_issue = c, found_itemId = item_id item\<rparr>)
      \<longleftrightarrow> (titleParsesAs (content_title content) prNumber
         \<and> (\<exists>name. firstRepositoryLine (bodyOf content) name \<and> trim name = repository)
         \<and> f = \<lparr>found_issue = content, found_itemId = item_id item\<rparr>)"
    using Some by simp
  then show ?thesis
    unfolding ci title repo by auto
qed

text \<open>
  Claim C5, as stated: an item is a match exactly when its title parses to the target
  number and its body has a line \<^verbatim>\<open>**Repository:** <name>\<close> that names the target
  repository. The item below has such a line, the second of its body, and is not matched:
  line 243 reads the first marker only, which names another repository.
\<close>

theorem checkItem_any_line_counterexample:
  "titleParsesAs ''PR #5: Fix'' 5
   \<and> hasRepositoryLine (''**Repository:** other'' @ newline @ ''**Repository:** target'')
        ''target''
   \<and> item_content twoMarkerItem =
        Some \<lparr>content_id = 22, content_number = 8, content_title = ''PR #5: Fix'',
              content_body = Some (''**Repository:** other'' @ newline
                                   @ ''**Repository:** target'')\<rparr>
   \<and> checkItem 5 ''target'' twoMarkerItem = None"
proof -
  have "''PR #5: Fix'' = ''PR #'' @ ''5'' @ '':'' @ '' Fix'' \<and> ''5'' \<noteq> []
      \<and> (\<forall>c\<in>set ''5''. isDigit c) \<and> parseInt ''5'' = 5"
    by (simp add: isDigit_def parseInt_def digitVal_def)
  then have 1: "titleParsesAs ''PR #5: Fix'' 5"
    unfolding titleParsesAs_def by blast
  have "''**Repository:** other'' @ newline @ ''**Repository:** target''
        = (''**Repository:** other'' @ newline) @ repoMarker @ ''target'' @ []
      \<and> isLineTerminator (last (''**Repository:** other'' @ newline))"
    by (simp add: repoMarker_def newline_def isLineTerminator_def)
  then have 2: "hasRepositoryLine
      (''**Repository:** other'' @ newline @ ''**Repository:** target'') ''target''"
    unfolding hasRepositoryLine_def by blast
  have 3: "checkItem 5 ''target'' twoMarkerItem = None"
    by (simp add: checkItem_def twoMarkerItem_def titleMatch_def isDigit_def parseInt_def
        digitVal_def newline_def repoMatchAt_def repoMarker_def isLineTerminator_def trim_def
        isWhiteSpace_def)
  from 1 2 3 show ?thesis
    by (simp add: twoMarkerItem_def)
qed

text \<open>
  Claim C5, amended. An item is returned as a match exactly when its title parses as
  \<^verbatim>\<open>PR #<number>:\<close> with the target number and the first marker \<^verbatim>\<open>**Repository:** \<close>
  of its body that is followed by a character of the same line has, as the rest of that
  line with the white space at both ends removed, the target repository. An item whose
  body has no such marker is never matched. The loop returns the first item of the
  listing that matches.
\<close>

theorem checkItem_match:
  "(checkItem prNumber repository item = Some f \<longleftrightarrow>
      (\<exists>content. item_content item = Some content
         \<and> titleParsesAs (content_title content) prNumber
         \<and> (\<exists>name. firstRepositoryLine (bodyOf content) name \<and> trim name = repository)
         \<and> f = \<lparr>found_issue = content, found_itemId = item_id item\<rparr>))
   \<and> ((\<forall>content. item_content item = Some content \<longrightarrow> (\<forall>k. \<not> markerAt (bodyOf content) k))
        \<longrightarrow> checkItem prNumber repository item = None)
   \<and> (checkItems prNumber repository items = Some f \<longleftrightarrow>
        (\<exists>i<length items. checkItem prNumber repository (items ! i) = Some f
           \<and> (\<forall>j<i. checkItem prNumber repository (items ! j) = None)))"
proof (intro conjI impI)
  show "checkItem prNumber repository item = Some f \<longleftrightarrow>
      (\<exists>content. item_content item = Some content
         \<and> titleParsesAs (content_title content) prNumber
         \<and> (\<exists>name. firstRepositoryLine (bodyOf content) name \<and> trim name = repository)
         \<and> f = \<lparr>found_issue = content, found_itemId = item_id item\<rparr>)"
    by (rule checkItem_Some_iff)
next
  assume none: "\<forall>content. item_content item = Some content
      \<longrightarrow> (\<forall>k. \<not> markerAt (bodyOf content) k)"
  show "checkItem prNumber repository item = None"
  proof (rule ccontr)
    assume "checkItem prNumber repository item \<noteq> None"
    then obtain g where "checkItem prNumber repository item = Some g"
      by auto
    then obtain content name where "item_content item = Some content"
      "firstRepositoryLine (bodyOf content) name"
      unfolding checkItem_Some_iff by blast
    with none show False
      unfolding firstRepositoryLine_def by blast
  qed
next
  show "checkItems prNumber repository items = Some f \<longleftrightarrow>
        (\<exists>i<length items. checkItem prNumber repository (items ! i) = Some f
           \<and> (\<forall>j<i. checkItem prNumber repository (items ! j) = None))"
    by (rule checkItems_Some_iff)
qed

theorem checkItem_match_witness:
  "checkItem 5 ''target'' canonicalItem
     = Some \<lparr>found_issue = the (item_content canonicalItem), found_itemId = 11\<rparr>
   \<and> titleParsesAs ''PR #5: Fix'' 5
   \<and> (\<exists>name. firstRepositoryLine (bodyOf (the (item_content canonicalItem))) name
         \<and> trim name = ''target'')
   \<and> checkItem 5 ''target'' noMarkerItem = None
   \<and> checkItems 5 ''target'' [noMarkerItem, twoMarkerItem, canonicalItem]
       = Some \<lparr>found_issue = the (item_content canonicalItem), found_itemId = 11\<rparr>"
proof -
  have evals: "checkItem 5 ''target'' canonicalItem
      = Some \<lparr>found_issue = the (item_content canonicalItem), found_itemId = 11\<rparr>"
    "checkItem 5 ''target'' twoMarkerItem = None"
    "repoMatch ''an older format'' = None"
    by (simp_all add: checkItem_def canonicalItem_def twoMarkerItem_def titleMatch_def
        isDigit_def parseInt_def digitVal_def newline_def repoMatchAt_def repoMarker_def
        isLineTerminator_def trim_def isWhiteSpace_def)
  note t = checkItem_match [of 5 "''target''" canonicalItem
      "\<lparr>found_issue = the (item_content canonicalItem), found_itemId = 11\<rparr>"]
  from t evals(1) have parsed: "titleParsesAs ''PR #5: Fix'' 5
      \<and> (\<exists>name. firstRepositoryLine (bodyOf (the (item_content canonicalItem))) name
            \<and> trim name = ''target'')"
    by (auto simp: canonicalItem_def)
  have "\<forall>content. item_content noMarkerItem = Some content
      \<longrightarrow> (\<forall>k. \<not> markerAt (bodyOf content) k)"
    using repoMatch_None_iff [THEN iffD1, OF evals(3)] by (simp add: noMarkerItem_def bodyOf_def)
  with checkItem_match [of 5 "''target''" noMarkerItem]
  have none: "checkItem 5 ''target'' noMarkerItem = None"
    by blast
  have "\<exists>i<length [noMarkerItem, twoMarkerItem, canonicalItem].
      checkItem 5 ''target'' ([noMarkerItem, twoMarkerItem, canonicalItem] ! i)
        = Some \<lparr>found_issue = the (item_content canonicalItem), found_itemId = 11\<rparr>
      \<and> (\<forall>j<i. checkItem 5 ''target'' ([noMarkerItem, twoMarkerItem, canonicalItem] ! j) = None)"
    using evals(1,2) none by (intro exI [of _ 2]) (simp add: less_Suc_eq numeral_2_eq_2)
  with checkItem_match [of 5 "''target''" _ _ "[noMarkerItem, twoMarkerItem, canonicalItem]"]
  have scan: "checkItems 5 ''target'' [noMarkerItem, twoMarkerItem, canonicalItem]
      = Some \<lparr>found_issue = the (item_content canonicalItem), found_itemId = 11\<rparr>"
    by blast
  from evals(1) parsed none scan show ?thesis
    by blast
qed

subsection \<open>The scan of the project items\<close>

lemma stopsWithin_returns:
  "stopsWithin k graphql n r cursor \<Longrightarrow> scanProjectItems graphql n r cursor \<noteq> None"
proof (induction k arbitrary: cursor)
  case 0
  then show ?case by simp
next
  case (Suc k)
  show ?case
  proof (cases "graphql cursor")
    case (Inl message)
    then show ?thesis
      by (subst scanProjectItems.simps) simp
  next
    case (Inr res)
    show ?thesis
    proof (cases "checkItems n r (itemsOf res) \<noteq> None \<or> \<not> hasNextPageOf res")
      case True
      with Inr show ?thesis
        by (subst scanProjectItems.simps) (auto split: option.splits)
    next
      case False
      with Suc.prems Inr have "stopsWithin k graphql n r (endCursorOf res)"
        by simp
      then have "scanProjectItems graphql n r (endCursorOf res) \<noteq> None"
        by (rule Suc.IH)
      with False Inr show ?thesis
        by (subst scanProjectItems.simps) simp
    qed
  qed
qed

lemma returns_stopsWithin:
  assumes "scanProjectItems graphql0 n0 r0 cursor0 = Some y0"
  shows "\<exists>k. stopsWithin k graphql0 n0 r0 cursor0"
proof (rule scanProjectItems.raw_induct
    [where P = "\<lambda>g n r c y. \<exists>k. stopsWithin k g n r c", OF _ assms])
  fix scan :: "'a items_api \<Rightarrow> nat \<Rightarrow> string \<Rightarrow> 'a option \<Rightarrow> (string + found option) option"
  fix graphql n r cursor y
  assume IH: "\<And>g n r c y. scan g n r c = Some y \<Longrightarrow> \<exists>k. stopsWithin k g n r c"
  assume step: "(case graphql cursor of
        Inl message \<Rightarrow> Some (Inl message)
      | Inr projectItemsResult \<Rightarrow>
          (case checkItems n r (itemsOf projectItemsResult) of
             None \<Rightarrow>
               if hasNextPageOf projectItemsResult
               then scan graphql n r (endCursorOf projectItemsResult)
               else Some (Inr None)
           | Some f \<Rightarrow> Some (Inr (Some f)))) = Some y"
  show "\<exists>k. stopsWithin k graphql n r cursor"
  proof (cases "graphql cursor")
    case (Inl message)
    then have "stopsWithin (Suc 0) graphql n r cursor"
      by simp
    then show ?thesis ..
  next
    case (Inr res)
    show ?thesis
    proof (cases "checkItems n r (itemsOf res) \<noteq> None \<or> \<not> hasNextPageOf res")
      case True
      with Inr have "stopsWithin (Suc 0) graphql n r cursor"
        by auto
      then show ?thesis ..
    next
      case False
      with step Inr have "scan graphql n r (endCursorOf res) = Some y"
        by simp
      then obtain k where "stopsWithin k graphql n r (endCursorOf res)"
        using IH by blast
      with Inr have "stopsWithin (Suc k) graphql n r cursor"
        by simp
      then show ?thesis ..
    qed
  qed
qed

lemma scan_returns_iff:
  "scanProjectItems graphql n r cursor \<noteq> None \<longleftrightarrow> (\<exists>k. stopsWithin k graphql n r cursor)"
  using stopsWithin_returns returns_stopsWithin by blast

lemma findExisting_returns_iff:
  "findExistingIssueInProject graphql n r \<noteq> None \<longleftrightarrow> (\<exists>k. stopsWithin k graphql n r None)"
  unfolding scan_returns_iff [symmetric]
  by (auto simp: findExistingIssueInProject_def split: option.splits sum.splits)

lemma never_stops:
  assumes "\<forall>c. \<exists>res. graphql c = Inr res \<and> checkItems n r (itemsOf res) = None
      \<and> hasNextPageOf res"
  shows "\<not> stopsWithin k graphql n r cursor"
proof (induction k arbitrary: cursor)
  case 0
  then show ?case by simp
next
  case (Suc k)
  from assms obtain res where "graphql cursor = Inr res" "checkItems n r (itemsOf res) = None"
    "hasNextPageOf res"
    by blast
  with Suc.IH show ?case
    by simp
qed

lemma stuckService_never:
  "\<forall>c. \<exists>res. stuckService c = Inr res \<and> checkItems n r (itemsOf res) = None
      \<and> hasNextPageOf res"
  by (simp add: stuckService_def itemsPage_def itemsOf_def hasNextPageOf_def pageInfoOf_def)

text \<open>
  Claim C9, as stated: the loop over the project items ends on every sequence of
  responses, since it sees a cursor that does not advance and aborts. The loop compares
  no cursors: against a service that always answers with an empty page, a next page
  announced and the same cursor, it does not return.
\<close>

theorem items_scan_loops_counterexample:
  "stuckService None = stuckService (Some 0)
   \<and> stuckService (Some 0) = itemsPage [] True (Some 0)
   \<and> scanProjectItems stuckService 5 ''target'' None = None
   \<and> findExistingIssueInProject stuckService 5 ''target'' = None"
proof -
  have "\<not> (\<exists>k. stopsWithin k stuckService 5 ''target'' None)"
    using never_stops [OF stuckService_never] by blast
  then have "scanProjectItems stuckService 5 ''target'' None = None"
    using scan_returns_iff [of stuckService 5 "''target''" None] by simp
  then show ?thesis
    by (simp add: findExistingIssueInProject_def stuckService_def)
qed

text \<open>
  Claim C9, amended. The loop over the project items has no guard of its own: it returns
  exactly when, after finitely many requests, a call is rejected, a page holds a matching
  item, or a response does not announce a next page. When every response announces a
  next page and holds no matching item, whatever its cursor, the function does not
  return.
\<close>

theorem items_scan_termination:
  "(findExistingIssueInProject graphql prNumber repository \<noteq> None
      \<longleftrightarrow> (\<exists>k. stopsWithin k graphql prNumber repository None))
   \<and> ((\<forall>c. \<exists>res. graphql c = Inr res \<and> checkItems prNumber repository (itemsOf res) = None
              \<and> hasNextPageOf res)
       \<longrightarrow> findExistingIssueInProject graphql prNumber repository = None)"
proof (intro conjI impI)
  show "findExistingIssueInProject graphql prNumber repository \<noteq> None
      \<longleftrightarrow> (\<exists>k. stopsWithin k graphql prNumber repository None)"
    by (rule findExisting_returns_iff)
next
  assume "\<forall>c. \<exists>res. graphql c = Inr res \<and> checkItems prNumber repository (itemsOf res) = None
      \<and> hasNextPageOf res"
  then have "\<not> (\<exists>k. stopsWithin k graphql prNumber repository None)"
    using never_stops by blast
  then show "findExistingIssueInProject graphql prNumber repository = None"
    using findExisting_returns_iff [of graphql prNumber repository] by blast
qed

lemma example_checks:
  "checkItem 5 ''target'' noMarkerItem = None"
  "checkItem 5 ''target'' twoMarkerItem = None"
  by (simp_all add: checkItem_def noMarkerItem_def twoMarkerItem_def titleMatch_def
      isDigit_def parseInt_def digitVal_def newline_def repoMatchAt_def repoMarker_def
      isLineTerminator_def trim_def isWhiteSpace_def)

theorem items_scan_termination_witness:
  "stopsWithin 3 threePages 5 ''target'' None
   \<and> findExistingIssueInProject threePages 5 ''target'' \<noteq> None
   \<and> findExistingIssueInProject (\<lambda>c. itemsPage [noMarkerItem] True c) 5 ''target'' = None"
proof -
  have 1: "stopsWithin 3 threePages 5 ''target'' None"
    by (simp add: numeral_3_eq_3 threePages_def itemsPage_def itemsOf_def hasNextPageOf_def
        pageInfoOf_def endCursorOf_def example_checks)
  have 2: "\<forall>c. \<exists>res. itemsPage [noMarkerItem] True c = Inr res
      \<and> checkItems 5 ''target'' (itemsOf res) = None \<and> hasNextPageOf res"
    by (simp add: itemsPage_def itemsOf_def hasNextPageOf_def pageInfoOf_def example_checks)
  from 1 2 show ?thesis
    using items_scan_termination [of threePages 5 "''target''"]
      items_scan_termination [of "\<lambda>c. itemsPage [noMarkerItem] True c" 5 "''target''"]
    by blast
qed

subsection \<open>The key of a tracking issue: writing it and reading it back\<close>








lemma issueTitle_nonempty: "issueTitle n t \<noteq> []"
  by (simp add: issueTitle_def)











subsection \<open>The scan against the faithful service\<close>





subsection \<open>A failed listing\<close>

lemma scan_emptyProject:
  "scanProjectItems (emptyProject s projectId) n r None = Some (Inr None)"
  by (subst scanProjectItems.simps)
    (simp add: emptyProject_def itemsOf_def hasNextPageOf_def pageInfoOf_def)

lemma findOrCreateIssue_cong_listing:
  assumes "findExistingIssueInProject (graphql_items gh s projectId) n r
      = findExistingIssueInProject (graphql_items gh' s projectId) n r"
    and "search_issues gh' = search_issues gh" and "issues_update gh' = issues_update gh"
    and "issues_create gh' = issues_create gh"
  shows "findOrCreateIssue gh s org r n title url author st effort weight projectId
      = findOrCreateIssue gh' s org r n title url author st effort weight projectId"
  unfolding findOrCreateIssue_def assms by (rule refl)

text \<open>
  Claim C10. When a call of the listing of project items is rejected during Step C.1,
  \<open>findExistingIssueInProject\<close> returns null, as it does for a project with no item; the
  run goes on as it would for such a project, to the search of the repository, and when
  the search finds nothing either it creates a new issue.
\<close>

theorem listing_failure_as_no_match:
  assumes "scanProjectItems (graphql_items gh s projectId) prNumber repository None
      = Some (Inl message)"
  shows "findExistingIssueInProject (graphql_items gh s projectId) prNumber repository = Some None
    \<and> findExistingIssueInProject (emptyProject s projectId) prNumber repository = Some None
    \<and> findOrCreateIssue gh s orgLogin repository prNumber prTitle prUrl prAuthor stats effort
          weight projectId
       = findOrCreateIssue (gh\<lparr>graphql_items := emptyProject\<rparr>) s orgLogin repository prNumber
           prTitle prUrl prAuthor stats effort weight projectId
    \<and> (search_issues gh s orgLogin repository (searchPhrase prNumber)
          = Inr (Some [])
        \<or> search_issues gh s orgLogin repository (searchPhrase prNumber)
          = Inr None
       \<longrightarrow> findOrCreateIssue gh s orgLogin repository prNumber prTitle prUrl prAuthor stats
             effort weight projectId
           = (case issues_create gh s orgLogin repository (issueTitle prNumber prTitle)
                     (createIssueBody prNumber prUrl repository prAuthor stats effort weight)
                     [prAuthor] of
                Inl m \<Rightarrow> Some (Inl (ApiError m), s)
              | Inr (created, s') \<Rightarrow>
                  Some (Inr \<lparr>info_issueId = hit_node_id created,
                             info_issueNumber = hit_number created,
                             info_itemId = None, info_isNew = True\<rparr>, s')))"
proof -
  have null: "findExistingIssueInProject (graphql_items gh s projectId) prNumber repository
      = Some None"
    using assms by (simp add: findExistingIssueInProject_def)
  have empty: "findExistingIssueInProject (emptyProject s projectId) prNumber repository
      = Some None"
    by (simp add: findExistingIssueInProject_def scan_emptyProject)
  have same: "findOrCreateIssue gh s orgLogin repository prNumber prTitle prUrl prAuthor stats
        effort weight projectId
      = findOrCreateIssue (gh\<lparr>graphql_items := emptyProject\<rparr>) s orgLogin repository prNumber
          prTitle prUrl prAuthor stats effort weight projectId"
    by (rule findOrCreateIssue_cong_listing) (simp_all add: null empty)
  have create: "findOrCreateIssue gh s orgLogin repository prNumber prTitle prUrl prAuthor
        stats effort weight projectId
      = (case issues_create gh s orgLogin repository (issueTitle prNumber prTitle)
                (createIssueBody prNumber prUrl repository prAuthor stats effort weight)
                [prAuthor] of
           Inl m \<Rightarrow> Some (Inl (ApiError m), s)
         | Inr (created, s') \<Rightarrow>
             Some (Inr \<lparr>info_issueId = hit_node_id created,
                        info_issueNumber = hit_number created,
                        info_itemId = None, info_isNew = True\<rparr>, s'))"
    if "search_issues gh s orgLogin repository (searchPhrase prNumber)
          = Inr (Some [])
        \<or> search_issues gh s orgLogin repository (searchPhrase prNumber)
          = Inr None"
    using that null by (auto simp: findOrCreateIssue_def Let_def split: sum.splits prod.splits)
  from null empty same create show ?thesis
    by blast
qed

lemma scan_failingSecondPage:
  "scanProjectItems failingSecondPage 5 ''target'' None = Some (Inl ''Bad gateway'')"
proof -
  have "scanProjectItems failingSecondPage 5 ''target'' (Some 1) = Some (Inl ''Bad gateway'')"
    by (subst scanProjectItems.simps) (simp add: failingSecondPage_def)
  then show ?thesis
    by (subst scanProjectItems.simps)
      (simp add: failingSecondPage_def itemsPage_def itemsOf_def hasNextPageOf_def
        pageInfoOf_def endCursorOf_def example_checks)
qed

theorem listing_failure_as_no_match_witness:
  "scanProjectItems (graphql_items flakyService emptyWorld 1) 5 ''target'' None
     = Some (Inl ''Bad gateway'')
   \<and> findExistingIssueInProject (graphql_items flakyService emptyWorld 1) 5 ''target''
     = Some None
   \<and> (\<exists>(created :: search_hit) w'.
        findOrCreateIssue flakyService emptyWorld ''acme'' ''target'' 5 ''Fix''
            ''https://github.com/acme/target/pull/5'' ''ann'' exampleStats ''5.55'' ''1'' 1
          = Some (Inr \<lparr>info_issueId = hit_node_id created,
                       info_issueNumber = hit_number created,
                       info_itemId = None, info_isNew = True\<rparr>, w')
        \<and> length (world_issues w') = 1)"
proof -
  have scan: "scanProjectItems (graphql_items flakyService emptyWorld 1) 5 ''target'' None
      = Some (Inl ''Bad gateway'')"
    by (simp add: flakyService_def scan_failingSecondPage)
  have search: "search_issues flakyService emptyWorld ''acme'' ''target''
      (searchPhrase 5) = Inr (Some [])"
    by (simp add: flakyService_def service_def world_search_def emptyWorld_def)
  note t = listing_failure_as_no_match [OF scan, of "''acme''" "''Fix''"
      "''https://github.com/acme/target/pull/5''" "''ann''" exampleStats "''5.55''" "''1''"]
  from t have null: "findExistingIssueInProject (graphql_items flakyService emptyWorld 1) 5
      ''target'' = Some None"
    by (rule conjunct1)
  from t search have "findOrCreateIssue flakyService emptyWorld ''acme'' ''target'' 5 ''Fix''
      ''https://github.com/acme/target/pull/5'' ''ann'' exampleStats ''5.55'' ''1'' 1
    = (case issues_create flakyService emptyWorld ''acme'' ''target'' (issueTitle 5 ''Fix'')
              (createIssueBody 5 ''https://github.com/acme/target/pull/5'' ''target'' ''ann''
                 exampleStats ''5.55'' ''1'')
              [''ann''] of
         Inl m \<Rightarrow> Some (Inl (ApiError m), emptyWorld)
       | Inr (created, s') \<Rightarrow>
           Some (Inr \<lparr>info_issueId = hit_node_id created,
                      info_issueNumber = hit_number created,
                      info_itemId = None, info_isNew = True\<rparr>, s'))"
    by blast
  moreover obtain created w' where
    "issues_create flakyService emptyWorld ''acme'' ''target'' (issueTitle 5 ''Fix'')
        (createIssueBody 5 ''https://github.com/acme/target/pull/5'' ''target'' ''ann''
           exampleStats ''5.55'' ''1'')
        [''ann''] = Inr (created, w')" and "length (world_issues w') = 1"
    by (simp add: flakyService_def service_def world_create_def emptyWorld_def Let_def)
  ultimately have "findOrCreateIssue flakyService emptyWorld ''acme'' ''target'' 5 ''Fix''
          ''https://github.com/acme/target/pull/5'' ''ann'' exampleStats ''5.55'' ''1'' 1
        = Some (Inr \<lparr>info_issueId = hit_node_id created,
                     info_issueNumber = hit_number created,
                     info_itemId = None, info_isNew = True\<rparr>, w')
      \<and> length (world_issues w') = 1"
    by simp
  then have "\<exists>(created :: search_hit) w'.
      findOrCreateIssue flakyService emptyWorld ''acme'' ''target'' 5 ''Fix''
          ''https://github.com/acme/target/pull/5'' ''ann'' exampleStats ''5.55'' ''1'' 1
        = Some (Inr \<lparr>info_issueId = hit_node_id created,
                     info_issueNumber = hit_number created,
                     info_itemId = None, info_isNew = True\<rparr>, w')
      \<and> length (world_issues w') = 1"
    by blast
  with scan null show ?thesis
    by blast
qed

subsection \<open>Fresh identifiers\<close>





subsection \<open>Reading the world after a write\<close>










subsection \<open>The first run and the runs after it\<close>









subsection \<open>Every run writes title, body and assignee\<close>







subsection \<open>Repeated runs\<close>








end
